theory Spec2Isabelle
  imports Complex_Main "HOL-Library.AList" "HOL-Library.Sublist"
begin

section \<open>JavaScript values the store handles\<close>

text \<open>
  The store (\<^verbatim>\<open>useStore\<close> in \<^verbatim>\<open>store.ts\<close>) keeps its files in a plain JavaScript
  object, reads and writes JSON text, and hands a few jobs to collaborators that are
  not part of it (the JSON codec, \<^verbatim>\<open>utoa\<close>/\<^verbatim>\<open>atou\<close>, \<^verbatim>\<open>confirm\<close>). This section
  fixes how those values are represented.

  Strings are \<^typ>\<open>string\<close>. A JSON value is a tree; an object is the
  list of its own enumerable properties in enumeration order.
\<close>

datatype json =
    JNull
  | JBool bool
  | JNum real
  | JStr string
  | JArr "json list"
  | JObj "(string \<times> json) list"

text \<open>JavaScript truthiness of a JSON value (\<^verbatim>\<open>if (x)\<close>).\<close>

fun truthy :: "json \<Rightarrow> bool" where
  "truthy JNull = False"
| "truthy (JBool b) = b"
| "truthy (JNum r) = (r \<noteq> 0)"
| "truthy (JStr s) = (s \<noteq> [])"
| "truthy (JArr xs) = True"
| "truthy (JObj kvs) = True"

subsection \<open>Objects as ordered property lists\<close>

text \<open>
  An object enumerates its array-index property names first, in ascending numeric
  order, and then its other names in the order they were added. A name is an array
  index when it is the canonical decimal numeral of an integer below \<open>2^32 - 1\<close>.
  Assigning to an existing name keeps its place.

  Names that an object created by \<^verbatim>\<open>{}\<close> inherits from \<^verbatim>\<open>Object.prototype\<close>
  (\<^verbatim>\<open>__proto__\<close>, \<^verbatim>\<open>constructor\<close>, \<^verbatim>\<open>toString\<close>, ...) are not treated specially:
  file names are taken to be different from them.
\<close>

definition is_digit :: "char \<Rightarrow> bool" where
  "is_digit c = (48 \<le> (of_char c :: nat) \<and> (of_char c :: nat) \<le> 57)"

definition decimal_value :: "string \<Rightarrow> nat" where
  "decimal_value s = foldl (\<lambda>n c. 10 * n + ((of_char c :: nat) - 48)) 0 s"

definition array_index :: "string \<Rightarrow> nat option" where
  "array_index s =
     (if s \<noteq> [] \<and> list_all is_digit s \<and> (s = ''0'' \<or> hd s \<noteq> CHR ''0'')
         \<and> decimal_value s < 4294967295
      then Some (decimal_value s) else None)"

fun insert_index :: "nat \<Rightarrow> string \<Rightarrow> 'a \<Rightarrow> (string \<times> 'a) list \<Rightarrow> (string \<times> 'a) list" where
  "insert_index n k v [] = [(k, v)]"
| "insert_index n k v (p # ps) =
     (case array_index (fst p) of
        Some m \<Rightarrow> if m < n then p # insert_index n k v ps else (k, v) # p # ps
      | None \<Rightarrow> (k, v) # p # ps)"

text \<open>\<^verbatim>\<open>obj[k] = v\<close>\<close>

definition obj_set :: "(string \<times> 'a) list \<Rightarrow> string \<Rightarrow> 'a \<Rightarrow> (string \<times> 'a) list" where
  "obj_set obj k v =
     (if map_of obj k \<noteq> None then AList.update k v obj
      else case array_index k of
             Some n \<Rightarrow> insert_index n k v obj
           | None \<Rightarrow> obj @ [(k, v)])"

text \<open>\<^verbatim>\<open>delete obj[k]\<close>\<close>

definition obj_delete :: "(string \<times> 'a) list \<Rightarrow> string \<Rightarrow> (string \<times> 'a) list" where
  "obj_delete obj k = AList.delete k obj"

text \<open>
  The order in which an object enumerates two of its names: an array index before a
  larger array index and before every other name; other names as they come.
\<close>

definition key_before :: "string \<Rightarrow> string \<Rightarrow> bool" where
  "key_before a b =
     (case array_index a of
        Some m \<Rightarrow> (case array_index b of Some n \<Rightarrow> m < n | None \<Rightarrow> True)
      | None \<Rightarrow> array_index b = None)"

text \<open>A property list that a JavaScript object can have: no name twice, names in
  enumeration order.\<close>

definition js_obj :: "(string \<times> 'a) list \<Rightarrow> bool" where
  "js_obj obj = (distinct (map fst obj) \<and> sorted_wrt key_before (map fst obj))"

section \<open>Files, templates and the store state\<close>

text \<open>\<^verbatim>\<open>class File\<close>: \<^verbatim>\<open>compiled\<close> holds the three output texts; the editor's view
  state is opaque to the store and left out.\<close>

record compiled =
  js :: string
  css :: string
  ssr :: string

record File =
  filename :: string
  code :: string
  hidden :: bool
  compiled :: compiled

text \<open>\<^verbatim>\<open>new File(filename, code, hidden)\<close>\<close>

definition new_File :: "string \<Rightarrow> string \<Rightarrow> bool \<Rightarrow> File" where
  "new_File name content hid =
     \<lparr>filename = name, code = content, hidden = hid,
      compiled = \<lparr>js = [], css = [], ssr = []\<rparr>\<rparr>"

text \<open>\<^verbatim>\<open>type Template\<close>; the field \<^verbatim>\<open>welcome\<close> is written \<open>welcome'\<close>.\<close>

record template =
  indexHtml :: string
  welcome' :: string
  new :: string
  viteConfig :: string

text \<open>
  The state of the store: the refs that the operations below read or write.
  \<open>builtinImports\<close> is \<^verbatim>\<open>builtinImportMap.value.imports || {}\<close>, a map from specifiers
  to URLs. \<open>pending\<close> lists the files handed to the asynchronous \<^verbatim>\<open>compileFile\<close>
  whose promise has not settled yet; what it reports later is outside a
  synchronous step.
\<close>

record store =
  files :: "(string \<times> File) list"
  activeFilename :: string
  activeConfigFilename :: string
  mainFile :: string
  builtinImports :: "(string \<times> string) list"
  errors :: "string list"
  vueVersion :: "string option"
  tsMacroConfigCode :: string
  preset :: string
  presets :: "(string \<times> template) list"
  pending :: "File list"

text \<open>\<^verbatim>\<open>computed(() => presets.value[preset.value])\<close>: \<open>None\<close> is \<^verbatim>\<open>undefined\<close>.\<close>

definition template :: "store \<Rightarrow> template option" where
  "template s = map_of (presets s) (preset s)"

text \<open>
  The collaborators, as functions the operations are given: \<^verbatim>\<open>JSON.parse\<close> (\<open>Inl\<close> is
  the message of the \<^verbatim>\<open>SyntaxError\<close> it throws), \<^verbatim>\<open>JSON.stringify\<close> with its indent
  (0 for none), \<^verbatim>\<open>utoa\<close> and \<^verbatim>\<open>atou\<close> from \<^verbatim>\<open>./utils\<close> (\<open>None\<close>: it throws), and
  the browser's \<^verbatim>\<open>confirm\<close>.
\<close>

record env =
  JSON_parse :: "string \<Rightarrow> string + json"
  JSON_stringify :: "nat \<Rightarrow> json \<Rightarrow> string"
  utoa :: "string \<Rightarrow> string"
  atou :: "string \<Rightarrow> string option"
  confirm :: "string \<Rightarrow> bool"

text \<open>
  What an operation can end with instead of returning: a \<^verbatim>\<open>SyntaxError\<close> of
  \<^verbatim>\<open>JSON.parse\<close>, a \<^verbatim>\<open>TypeError\<close> (a property read on \<^verbatim>\<open>null\<close> or \<^verbatim>\<open>undefined\<close>, a
  method missing on a value), or \<open>IllTyped\<close>: the JSON read has a shape outside
  the declared TypeScript type, the source would go on with an ill-typed store, and
  the model stops there.
\<close>

datatype error = SyntaxError string | TypeError | IllTyped

section \<open>File names\<close>

definition importMapFile :: string where "importMapFile = ''import-map.json''"
definition tsconfigFile :: string where "tsconfigFile = ''tsconfig.json''"
definition viteConfigFile :: string where "viteConfigFile = ''vite.config.ts''"
definition tsMacroConfigFile :: string where "tsMacroConfigFile = ''tsm.config.ts''"
definition indexHtmlFile :: string where "indexHtmlFile = ''src/index.html''"
definition welcomeFile :: string where "welcomeFile = ''src/App.tsx''"

text \<open>\<^verbatim>\<open>s.startsWith(p)\<close> is \<^term>\<open>prefix p s\<close>, \<^verbatim>\<open>s.endsWith(p)\<close> is \<^term>\<open>suffix p s\<close>.\<close>

definition addSrcPrefix :: "string \<Rightarrow> string" where
  "addSrcPrefix file =
     (if file = importMapFile \<or> file = tsconfigFile \<or> file = viteConfigFile
         \<or> file = tsMacroConfigFile \<or> prefix ''src/'' file
      then file else ''src/'' @ file)"

text \<open>\<^verbatim>\<open>file.replace(/^src\//, '')\<close>: the pattern is anchored and not global.\<close>

definition stripSrcPrefix :: "string \<Rightarrow> string" where
  "stripSrcPrefix file = (if prefix ''src/'' file then drop 4 file else file)"

text \<open>\<^verbatim>\<open>url.replace(pat, rep)\<close> with a string pattern replaces the first occurrence only;
  the replacement used below has no \<^verbatim>\<open>$\<close> pattern in it.\<close>

fun replace_first :: "string \<Rightarrow> string \<Rightarrow> string \<Rightarrow> string" where
  "replace_first pat rep [] = (if pat = [] then rep else [])"
| "replace_first pat rep (c # cs) =
     (if prefix pat (c # cs) then rep @ drop (length pat) (c # cs)
      else c # replace_first pat rep cs)"

definition fixURL :: "string \<Rightarrow> string" where
  "fixURL url = replace_first ''https://sfc.vuejs'' ''https://play.vuejs'' url"

definition setFile :: "(string \<times> File) list \<Rightarrow> string \<Rightarrow> string \<Rightarrow> bool \<Rightarrow> (string \<times> File) list" where
  "setFile fs name content hid =
     (let normalized = addSrcPrefix name
      in obj_set fs normalized (new_File normalized content hid))"

section \<open>The import map file\<close>

text \<open>
  \<^verbatim>\<open>setImportMap(map)\<close>. The loop rewrites each truthy value of \<^verbatim>\<open>map.imports\<close>; a truthy
  value that is not a string has no \<^verbatim>\<open>replace\<close> method. An import map is an object
  whose \<^verbatim>\<open>imports\<close>, when truthy, is an object.
\<close>

fun fix_value :: "json \<Rightarrow> error + json" where
  "fix_value (JStr u) = Inr (JStr (fixURL u))"
| "fix_value v = (if truthy v then Inl TypeError else Inr v)"

fun fix_entries :: "(string \<times> json) list \<Rightarrow> error + (string \<times> json) list" where
  "fix_entries [] = Inr []"
| "fix_entries ((key, v) # es) =
     (case fix_value v of
        Inl e \<Rightarrow> Inl e
      | Inr v' \<Rightarrow> (case fix_entries es of Inl e \<Rightarrow> Inl e | Inr es' \<Rightarrow> Inr ((key, v') # es')))"

fun fix_imports :: "json \<Rightarrow> error + json" where
  "fix_imports JNull = Inl TypeError"
| "fix_imports (JObj m) =
     (case map_of m ''imports'' of
        None \<Rightarrow> Inr (JObj m)
      | Some (JObj es) \<Rightarrow>
          (case fix_entries es of
             Inl e \<Rightarrow> Inl e
           | Inr es' \<Rightarrow> Inr (JObj (AList.update ''imports'' (JObj es') m)))
      | Some v \<Rightarrow> if truthy v then Inl IllTyped else Inr (JObj m))"
| "fix_imports v = Inl IllTyped"

definition setImportMap :: "env \<Rightarrow> json \<Rightarrow> store \<Rightarrow> error + store" where
  "setImportMap env m s =
     (case fix_imports m of
        Inl e \<Rightarrow> Inl e
      | Inr m' \<Rightarrow>
          (let code' = JSON_stringify env 2 m'
           in case map_of (files s) importMapFile of
                Some f \<Rightarrow> Inr (s\<lparr>files := obj_set (files s) importMapFile (f\<lparr>code := code'\<rparr>)\<rparr>)
              | None \<Rightarrow> Inr (s\<lparr>files := obj_set (files s) importMapFile
                                          (new_File importMapFile code' False)\<rparr>)))"

text \<open>\<^verbatim>\<open>getImportMap()\<close>: \<^verbatim>\<open>JSON.parse(files.value[importMapFile]?.code || '{}')\<close> in a
  \<^verbatim>\<open>try\<close>; the result is the parsed value and the store with its error list.\<close>

definition getImportMap :: "env \<Rightarrow> store \<Rightarrow> json \<times> store" where
  "getImportMap env s =
     (let text = (case map_of (files s) importMapFile of
                    None \<Rightarrow> ''{}''
                  | Some f \<Rightarrow> if code f = [] then ''{}'' else code f)
      in case JSON_parse env text of
           Inr v \<Rightarrow> (v, s)
         | Inl msg \<Rightarrow>
             (JObj [], s\<lparr>errors := [''Syntax error in '' @ importMapFile @ '': '' @ msg]\<rparr>))"

section \<open>File operations\<close>

definition setActive :: "string \<Rightarrow> store \<Rightarrow> store" where
  "setActive name s =
     (if name \<in> set [viteConfigFile, tsMacroConfigFile, tsconfigFile, importMapFile]
      then s\<lparr>activeConfigFilename := name\<rparr>
      else s\<lparr>activeFilename := name\<rparr>)"

text \<open>\<^verbatim>\<open>addFile(fileOrFilename)\<close>: \<open>Inl\<close> is a bare name, \<open>Inr\<close> a ready-made file.
  \<^verbatim>\<open>template.value.new\<close> is read only for a name ending in \<^verbatim>\<open>.tsx\<close>.\<close>

definition addFile :: "string + File \<Rightarrow> store \<Rightarrow> error + store" where
  "addFile fileOrFilename s =
     (case (case fileOrFilename of
              Inl name \<Rightarrow>
                (if suffix ''.tsx'' name
                 then (case template s of
                         None \<Rightarrow> Inl TypeError
                       | Some t \<Rightarrow> Inr (new_File name (new t) False))
                 else Inr (new_File name [] False))
            | Inr f \<Rightarrow> Inr f) of
        Inl e \<Rightarrow> Inl e
      | Inr file \<Rightarrow>
          (let s1 = s\<lparr>files := obj_set (files s) (filename file) file\<rparr>
           in Inr (if \<not> hidden file then setActive (filename file) s1 else s1)))"

definition deleteFile :: "env \<Rightarrow> string \<Rightarrow> store \<Rightarrow> store" where
  "deleteFile env name s =
     (if \<not> confirm env (''Are you sure you want to delete '' @ stripSrcPrefix name @ ''?'')
      then s
      else (let s1 = (if activeFilename s = name then s\<lparr>activeFilename := mainFile s\<rparr> else s)
            in s1\<lparr>files := obj_delete (files s1) name\<rparr>))"

text \<open>
  \<^verbatim>\<open>renameFile(oldFilename, newFilename)\<close>. \<^verbatim>\<open>file.filename = newFilename\<close> changes the
  file object that the mapping holds under the old name; the loop then copies every
  entry into a new object. When the renamed file is not the active one it is handed
  to \<^verbatim>\<open>compileFile\<close>.
\<close>

definition rename_not_found :: "string \<Rightarrow> string" where
  "rename_not_found oldFilename =
     ''Could not rename '' @ [CHR 0x22] @ oldFilename @ [CHR 0x22] @ '', file not found''"

definition rename_refused :: "string \<Rightarrow> string \<Rightarrow> string" where
  "rename_refused oldFilename newFilename =
     ''Cannot rename '' @ [CHR 0x22] @ oldFilename @ [CHR 0x22] @ '' to ''
       @ [CHR 0x22] @ newFilename @ [CHR 0x22]"

definition rename_step :: "string \<Rightarrow> string \<Rightarrow> string \<times> File \<Rightarrow> (string \<times> File) list \<Rightarrow> (string \<times> File) list" where
  "rename_step oldFilename newFilename entry newFiles =
     (if fst entry = oldFilename then obj_set newFiles newFilename (snd entry)
      else obj_set newFiles (fst entry) (snd entry))"

definition renameFile :: "string \<Rightarrow> string \<Rightarrow> store \<Rightarrow> store" where
  "renameFile oldFilename newFilename s =
     (case map_of (files s) oldFilename of
        None \<Rightarrow> s\<lparr>errors := [rename_not_found oldFilename]\<rparr>
      | Some file \<Rightarrow>
          if newFilename = [] \<or> oldFilename = newFilename
          then s\<lparr>errors := [rename_refused oldFilename newFilename]\<rparr>
          else
            (let file' = file\<lparr>filename := newFilename\<rparr>;
                 entries = AList.update oldFilename file' (files s);
                 newFiles = fold (rename_step oldFilename newFilename) entries [];
                 s1 = s\<lparr>files := newFiles\<rparr>;
                 s2 = (if mainFile s1 = oldFilename then s1\<lparr>mainFile := newFilename\<rparr> else s1)
             in if activeFilename s2 = oldFilename
                then s2\<lparr>activeFilename := newFilename\<rparr>
                else s2\<lparr>pending := pending s2 @ [file']\<rparr>))"

section \<open>Serialization\<close>

text \<open>An exported file, \<^verbatim>\<open>{ code: string; hidden?: boolean }\<close>, and the JSON object
  \<^verbatim>\<open>JSON.stringify\<close> sees for it: a property that is \<^verbatim>\<open>undefined\<close> is not written.\<close>

datatype exported = Exported (ex_code: string) (ex_hidden: "bool option")

fun json_of_exported :: "exported \<Rightarrow> json" where
  "json_of_exported (Exported c None) = JObj [(''code'', JStr c)]"
| "json_of_exported (Exported c (Some h)) = JObj [(''code'', JStr c), (''hidden'', JBool h)]"

definition getFiles_step :: "string \<times> File \<Rightarrow> (string \<times> exported) list \<Rightarrow> (string \<times> exported) list" where
  "getFiles_step entry exported' =
     obj_set exported' (stripSrcPrefix (fst entry))
       (Exported (code (snd entry)) (Some (hidden (snd entry))))"

definition getFiles :: "store \<Rightarrow> (string \<times> exported) list" where
  "getFiles s = fold getFiles_step (files s) []"

text \<open>
  The part of \<^verbatim>\<open>serialize\<close> that edits the parsed import map, returning the properties
  left in \<^verbatim>\<open>parsed\<close>. \<^verbatim>\<open>builtin[key] === value\<close> holds when the built-in map has the
  string \<^verbatim>\<open>value\<close> under \<^verbatim>\<open>key\<close>.
\<close>

definition same_as_builtin :: "(string \<times> string) list \<Rightarrow> string \<times> json \<Rightarrow> bool" where
  "same_as_builtin builtin entry =
     (case map_of builtin (fst entry) of
        None \<Rightarrow> False
      | Some u \<Rightarrow> snd entry = JStr u)"

definition prune_imports :: "(string \<times> string) list \<Rightarrow> (string \<times> json) list \<Rightarrow> error + (string \<times> json) list" where
  "prune_imports builtin parsed =
     (case map_of parsed ''imports'' of
        None \<Rightarrow> Inr parsed
      | Some (JObj es) \<Rightarrow>
          (let es' = filter (\<lambda>entry. \<not> same_as_builtin builtin entry) es
           in if es' = [] then Inr (obj_delete parsed ''imports'')
              else Inr (AList.update ''imports'' (JObj es') parsed))
      | Some v \<Rightarrow> if truthy v then Inl IllTyped else Inr parsed)"

definition prune_scopes :: "(string \<times> json) list \<Rightarrow> error + (string \<times> json) list" where
  "prune_scopes parsed =
     (case map_of parsed ''scopes'' of
        None \<Rightarrow> Inr parsed
      | Some (JObj sc) \<Rightarrow> if sc = [] then Inr (obj_delete parsed ''scopes'') else Inr parsed
      | Some v \<Rightarrow> if truthy v then Inl IllTyped else Inr parsed)"

fun prune_import_map :: "(string \<times> string) list \<Rightarrow> json \<Rightarrow> error + (string \<times> json) list" where
  "prune_import_map builtin JNull = Inl TypeError"
| "prune_import_map builtin (JObj parsed) =
     (case prune_imports builtin parsed of
        Inl e \<Rightarrow> Inl e
      | Inr parsed' \<Rightarrow> prune_scopes parsed')"
| "prune_import_map builtin v = Inl IllTyped"

definition serialize_import_map :: "env \<Rightarrow> store \<Rightarrow> (string \<times> exported) list \<Rightarrow> error + (string \<times> exported) list" where
  "serialize_import_map env s fs =
     (case map_of fs importMapFile of
        None \<Rightarrow> Inr fs
      | Some importMap \<Rightarrow>
          (case JSON_parse env (ex_code importMap) of
             Inl msg \<Rightarrow> Inl (SyntaxError msg)
           | Inr parsed \<Rightarrow>
               (case prune_import_map (builtinImports s) parsed of
                  Inl e \<Rightarrow> Inl e
                | Inr parsed' \<Rightarrow>
                    if parsed' \<noteq> []
                    then Inr (obj_set fs importMapFile
                                (Exported (JSON_stringify env 2 (JObj parsed')) None))
                    else Inr (obj_delete fs importMapFile))))"

text \<open>\<^verbatim>\<open>if (vueVersion.value) files._version = vueVersion.value\<close>, on the JSON object
  that \<^verbatim>\<open>JSON.stringify(files)\<close> then prints.\<close>

definition with_version :: "string option \<Rightarrow> (string \<times> json) list \<Rightarrow> (string \<times> json) list" where
  "with_version version obj =
     (case version of
        None \<Rightarrow> obj
      | Some v \<Rightarrow> if v \<noteq> [] then obj_set obj ''_version'' (JStr v) else obj)"

definition serialize :: "env \<Rightarrow> store \<Rightarrow> error + string" where
  "serialize env s =
     (case serialize_import_map env s (getFiles s) of
        Inl e \<Rightarrow> Inl e
      | Inr fs \<Rightarrow>
          Inr (''#'' @ utoa env (JSON_stringify env 0
                 (JObj (with_version (vueVersion s)
                          (map (\<lambda>entry. (fst entry, json_of_exported (snd entry))) fs))))))"

definition setDefaultFile :: "store \<Rightarrow> error + store" where
  "setDefaultFile s =
     (case template s of
        None \<Rightarrow> Inl TypeError
      | Some t \<Rightarrow>
          (let f1 = setFile (files s) indexHtmlFile (indexHtml t) True;
               f2 = setFile f1 welcomeFile (welcome' t) False;
               f3 = setFile f2 viteConfigFile (viteConfig t) False;
               f4 = setFile f3 tsMacroConfigFile (tsMacroConfigCode s) False
           in Inr (s\<lparr>files := f4\<rparr>)))"

text \<open>
  \<^verbatim>\<open>for (const filename in saved)\<close> enumerates the properties of an object, the indices
  of an array and of a string, and nothing for another value.
\<close>

fun string_of_nat :: "nat \<Rightarrow> string" where
  "string_of_nat n =
     (if n < 10 then [char_of (48 + n)]
      else string_of_nat (n div 10) @ [char_of (48 + n mod 10)])"

fun for_in :: "json \<Rightarrow> (string \<times> json) list" where
  "for_in (JObj kvs) = kvs"
| "for_in (JArr xs) = zip (map string_of_nat [0..<length xs]) xs"
| "for_in (JStr cs) = zip (map string_of_nat [0..<length cs]) (map (\<lambda>c. JStr [c]) cs)"
| "for_in v = []"

text \<open>\<^verbatim>\<open>saved[filename].code\<close> and \<^verbatim>\<open>saved[filename].hidden\<close>, as \<^verbatim>\<open>setFile\<close> takes them:
  its parameters default to \<^verbatim>\<open>''\<close> and \<^verbatim>\<open>false\<close> when the property is missing.\<close>

fun saved_code :: "json \<Rightarrow> error + string" where
  "saved_code JNull = Inl TypeError"
| "saved_code (JObj m) =
     (case map_of m ''code'' of
        None \<Rightarrow> Inr []
      | Some (JStr c) \<Rightarrow> Inr c
      | Some v \<Rightarrow> Inl IllTyped)"
| "saved_code v = Inr []"

fun saved_hidden :: "json \<Rightarrow> error + bool" where
  "saved_hidden JNull = Inl TypeError"
| "saved_hidden (JObj m) =
     (case map_of m ''hidden'' of
        None \<Rightarrow> Inr False
      | Some (JBool h) \<Rightarrow> Inr h
      | Some v \<Rightarrow> Inl IllTyped)"
| "saved_hidden v = Inr False"

definition restore_entry :: "string \<times> json \<Rightarrow> store \<Rightarrow> error + store" where
  "restore_entry entry s =
     (if fst entry = ''_version''
      then (case snd entry of
              JStr v \<Rightarrow> Inr (s\<lparr>vueVersion := Some v\<rparr>)
            | JNull \<Rightarrow> Inr (s\<lparr>vueVersion := None\<rparr>)
            | _ \<Rightarrow> Inl IllTyped)
      else (case saved_code (snd entry) of
              Inl e \<Rightarrow> Inl e
            | Inr c \<Rightarrow>
                (case saved_hidden (snd entry) of
                   Inl e \<Rightarrow> Inl e
                 | Inr h \<Rightarrow> Inr (s\<lparr>files := setFile (files s) (fst entry) c h\<rparr>))))"

fun restore :: "(string \<times> json) list \<Rightarrow> store \<Rightarrow> error + store" where
  "restore [] s = Inr s"
| "restore (entry # entries) s =
     (case restore_entry entry s of
        Inl e \<Rightarrow> Inl e
      | Inr s' \<Rightarrow> restore entries s')"

text \<open>\<^verbatim>\<open>deserialize(serializedState)\<close>: when \<^verbatim>\<open>atou\<close> or \<^verbatim>\<open>JSON.parse\<close> throws, the user
  is alerted and the default files are set.\<close>

definition deserialize :: "env \<Rightarrow> string \<Rightarrow> store \<Rightarrow> error + store" where
  "deserialize env serializedState s =
     (let state = (if prefix ''#'' serializedState then drop 1 serializedState
                   else serializedState)
      in case atou env state of
           None \<Rightarrow> setDefaultFile s
         | Some text \<Rightarrow>
             (case JSON_parse env text of
                Inl msg \<Rightarrow> setDefaultFile s
              | Inr saved \<Rightarrow> restore (for_in saved) s))"

text \<open>
  The part of \<^verbatim>\<open>useStore\<close> that fills a new store: \<^verbatim>\<open>deserialize\<close> for a non-empty
  serialized state and the default files otherwise, then the choice of the main
  file and of the active file. \<^verbatim>\<open>find\<close> gives \<^verbatim>\<open>undefined\<close> when no name ends in
  \<^verbatim>\<open>.tsx\<close>, which is no file name. \<open>active\<close> is the \<^verbatim>\<open>activeFilename\<close> option.
\<close>

definition useStore_load :: "env \<Rightarrow> string option \<Rightarrow> string option \<Rightarrow> store \<Rightarrow> error + store" where
  "useStore_load env serializedState active s =
     (case (case serializedState of
              None \<Rightarrow> setDefaultFile s
            | Some state \<Rightarrow> if state \<noteq> [] then deserialize env state s else setDefaultFile s) of
        Inl e \<Rightarrow> Inl e
      | Inr s1 \<Rightarrow>
          (case (if map_of (files s1) (mainFile s1) = None
                 then (case find (suffix ''.tsx'') (map fst (files s1)) of
                         None \<Rightarrow> Inl IllTyped
                       | Some name \<Rightarrow> Inr (s1\<lparr>mainFile := name\<rparr>))
                 else Inr s1) of
             Inl e \<Rightarrow> Inl e
           | Inr s2 \<Rightarrow>
               Inr (case active of
                      None \<Rightarrow> s2\<lparr>activeFilename := mainFile s2\<rparr>
                    | Some name \<Rightarrow> s2\<lparr>activeFilename := name\<rparr>)))"

section \<open>A sample store and sample collaborators\<close>

text \<open>
  A store with four files, the built-in import map \<^verbatim>\<open>{imports: {vue: "https://A"}}\<close> and
  a user import map that repeats the built-in entry and adds one.
\<close>

definition sample_template :: template where
  "sample_template =
     \<lparr>indexHtml = ''<div id=app>'', welcome' = ''hello'', new = ''fresh'', viteConfig = ''cfg''\<rparr>"

definition sample_import_map_text :: string where
  "sample_import_map_text = ''{\"imports\":{\"vue\":\"https://A\",\"foo\":\"https://B\"}}''"

definition sample_store :: store where
  "sample_store =
     \<lparr>files = [(''src/index.html'', new_File ''src/index.html'' ''<div id=app>'' True),
               (''src/App.tsx'', new_File ''src/App.tsx'' ''hello'' False),
               (''src/util.ts'', new_File ''src/util.ts'' ''u'' False),
               (''import-map.json'', new_File ''import-map.json'' sample_import_map_text False)],
      activeFilename = ''src/App.tsx'',
      activeConfigFilename = ''vite.config.ts'',
      mainFile = ''src/App.tsx'',
      builtinImports = [(''vue'', ''https://A'')],
      errors = [],
      vueVersion = Some ''3.5.0'',
      tsMacroConfigCode = ''export default { plugins: [] }'',
      preset = ''vue-jsx'',
      presets = [(''vue-jsx'', sample_template)],
      pending = []\<rparr>"

text \<open>What \<^verbatim>\<open>serialize\<close> hands to \<^verbatim>\<open>JSON.stringify\<close> for the sample store.\<close>

definition sample_pruned :: json where
  "sample_pruned = JObj [(''imports'', JObj [(''foo'', JStr ''https://B'')])]"

definition sample_pruned_text :: string where
  "sample_pruned_text = ''{'' @ [CHR 0x0A] @ ''  \"imports\": {'' @ [CHR 0x0A] @ ''    \"foo\": \"https://B\"''
       @ [CHR 0x0A] @ ''  }'' @ [CHR 0x0A] @ ''}''"

definition sample_saved :: json where
  "sample_saved =
     JObj [(''index.html'', JObj [(''code'', JStr ''<div id=app>''), (''hidden'', JBool True)]),
           (''App.tsx'', JObj [(''code'', JStr ''hello''), (''hidden'', JBool False)]),
           (''util.ts'', JObj [(''code'', JStr ''u''), (''hidden'', JBool False)]),
           (''import-map.json'', JObj [(''code'', JStr sample_pruned_text)]),
           (''_version'', JStr ''3.5.0'')]"

definition sample_saved_text :: string where
  "sample_saved_text = ''{\"index.html\":{\"code\":\"<div id=app>\",\"hidden\":true},\"App.tsx\":{\"code\":\"hello\",\"hidden\":false},\"util.ts\":{\"code\":\"u\",\"hidden\":false},\"import-map.json\":{\"code\":\"{''
       @ [CHR 0x5C] @ ''n  '' @ [CHR 0x5C] @ ''\"imports'' @ [CHR 0x5C] @ ''\": {'' @ [CHR 0x5C]
       @ ''n    '' @ [CHR 0x5C] @ ''\"foo'' @ [CHR 0x5C] @ ''\": '' @ [CHR 0x5C]
       @ ''\"https://B'' @ [CHR 0x5C] @ ''\"'' @ [CHR 0x5C] @ ''n  }'' @ [CHR 0x5C]
       @ ''n}\"},\"_version\":\"3.5.0\"}''"

text \<open>An import map that has a URL of the public host under \<^verbatim>\<open>scopes\<close>, and its text
  with indent 2.\<close>

definition sample_scoped :: json where
  "sample_scoped =
     JObj [(''scopes'',
            JObj [(''https://x/'', JObj [(''vue'', JStr ''https://sfc.vuejs.org/vue.js'')])])]"

definition sample_scoped_text :: string where
  "sample_scoped_text = ''{'' @ [CHR 0x0A] @ ''  \"scopes\": {'' @ [CHR 0x0A] @ ''    \"https://x/\": {''
       @ [CHR 0x0A] @ ''      \"vue\": \"https://sfc.vuejs.org/vue.js\"'' @ [CHR 0x0A]
       @ ''    }'' @ [CHR 0x0A] @ ''  }'' @ [CHR 0x0A] @ ''}''"

text \<open>
  A JSON codec that knows a few texts: each line is an indent, a text and the value
  that \<^verbatim>\<open>JSON.parse\<close> reads from the text and \<^verbatim>\<open>JSON.stringify\<close> prints as the text with
  that indent. Any other text counts as cut short, any other value prints as
  \<^verbatim>\<open>null\<close>.
\<close>

definition sample_json :: "(nat \<times> string \<times> json) list" where
  "sample_json =
     [(0, ''{}'', JObj []),
      (0, sample_import_map_text,
         JObj [(''imports'', JObj [(''vue'', JStr ''https://A''), (''foo'', JStr ''https://B'')])]),
      (2, sample_pruned_text, sample_pruned),
      (0, sample_saved_text, sample_saved),
      (2, ''{'' @ [CHR 0x0A] @ ''  \"imports\": {'' @ [CHR 0x0A]
          @ ''    \"vue\": \"https://play.vuejs.org/vue.js\"'' @ [CHR 0x0A] @ ''  }'' @ [CHR 0x0A]
          @ ''}'',
         JObj [(''imports'', JObj [(''vue'', JStr ''https://play.vuejs.org/vue.js'')])]),
      (2, sample_scoped_text, sample_scoped)]"

definition sample_parse :: "string \<Rightarrow> string + json" where
  "sample_parse t =
     (case find (\<lambda>e. fst (snd e) = t) sample_json of
        None \<Rightarrow> Inl ''Unexpected end of JSON input''
      | Some e \<Rightarrow> Inr (snd (snd e)))"

definition sample_stringify :: "nat \<Rightarrow> json \<Rightarrow> string" where
  "sample_stringify n v =
     (case find (\<lambda>e. fst e = n \<and> snd (snd e) = v) sample_json of
        None \<Rightarrow> ''null''
      | Some e \<Rightarrow> fst (snd e))"

text \<open>The identity stands in for \<^verbatim>\<open>utoa\<close> and \<^verbatim>\<open>atou\<close>; the user confirms every prompt.\<close>

definition sample_env :: env where
  "sample_env =
     \<lparr>JSON_parse = sample_parse, JSON_stringify = sample_stringify,
      utoa = (\<lambda>t. t), atou = Some, confirm = (\<lambda>message. True)\<rparr>"

section \<open>The serialized form in the words of the specification\<close>

text \<open>
  The specification describes what \<^verbatim>\<open>serialize\<close> encodes step by step. The definitions
  of this section follow its words, with lists in place of objects; the theorems
  below compare them with \<^verbatim>\<open>serialize\<close> as the source has it.

  All files, their names stripped of the \<^verbatim>\<open>src/\<close> prefix:
\<close>

definition spec_export :: "(string \<times> File) list \<Rightarrow> (string \<times> exported) list" where
  "spec_export fs =
     map (\<lambda>e. (stripSrcPrefix (fst e), Exported (code (snd e)) (Some (hidden (snd e))))) fs"

text \<open>The import map without the \<^verbatim>\<open>imports\<close> entries that the built-in map has with the
  same value:\<close>

definition spec_drop_builtin :: "(string \<times> string) list \<Rightarrow> (string \<times> json) list \<Rightarrow> (string \<times> json) list" where
  "spec_drop_builtin builtin m =
     map (\<lambda>e. if fst e = ''imports''
              then (case snd e of
                      JObj es \<Rightarrow>
                        (''imports'', JObj (filter (\<lambda>i. \<not> same_as_builtin builtin i) es))
                    | _ \<Rightarrow> e)
              else e) m"

text \<open>without a member \<open>k\<close> that is an empty object:\<close>

definition spec_drop_empty :: "string \<Rightarrow> (string \<times> json) list \<Rightarrow> (string \<times> json) list" where
  "spec_drop_empty k m = filter (\<lambda>e. \<not> (fst e = k \<and> snd e = JObj [])) m"

definition spec_import_map :: "(string \<times> string) list \<Rightarrow> (string \<times> json) list \<Rightarrow> (string \<times> json) list" where
  "spec_import_map builtin m =
     spec_drop_empty ''scopes'' (spec_drop_empty ''imports'' (spec_drop_builtin builtin m))"

text \<open>The exported entry of the import map file, with the map that is left printed
  with indent 2 as its code, and no entry when nothing is left of the map:\<close>

definition spec_import_map_entry :: "env \<Rightarrow> (string \<times> string) list \<Rightarrow> string \<Rightarrow> (string \<times> exported) list" where
  "spec_import_map_entry env builtin content =
     (case JSON_parse env content of
        Inr (JObj m) \<Rightarrow>
          if spec_import_map builtin m = [] then []
          else [(importMapFile,
                 Exported (JSON_stringify env 2 (JObj (spec_import_map builtin m))) None)]
      | _ \<Rightarrow> [])"

definition spec_files :: "env \<Rightarrow> store \<Rightarrow> (string \<times> exported) list" where
  "spec_files env s =
     concat (map (\<lambda>e. if fst e = importMapFile
                      then spec_import_map_entry env (builtinImports s) (ex_code (snd e))
                      else [e])
               (spec_export (files s)))"

text \<open>The version marker, when a version is selected:\<close>

definition spec_version :: "string option \<Rightarrow> (string \<times> json) list" where
  "spec_version version =
     (case version of
        None \<Rightarrow> []
      | Some v \<Rightarrow> if v \<noteq> [] then [(''_version'', JStr v)] else [])"

text \<open>The object that is JSON-encoded:\<close>

definition spec_serialized :: "env \<Rightarrow> store \<Rightarrow> json" where
  "spec_serialized env s =
     JObj (map (\<lambda>e. (fst e, json_of_exported (snd e))) (spec_files env s)
           @ spec_version (vueVersion s))"



text \<open>
  A parsed import map of the declared type: an object, no name twice, whose
  \<^verbatim>\<open>imports\<close> and \<^verbatim>\<open>scopes\<close> are objects where they are present and truthy.
\<close>

fun object_or_falsy :: "json option \<Rightarrow> bool" where
  "object_or_falsy None = True"
| "object_or_falsy (Some (JObj es)) = True"
| "object_or_falsy (Some v) = (\<not> truthy v)"

definition import_map_shape :: "(string \<times> json) list \<Rightarrow> bool" where
  "import_map_shape m =
     (distinct (map fst m) \<and> object_or_falsy (map_of m ''imports'')
      \<and> object_or_falsy (map_of m ''scopes''))"

text \<open>
  Conditions on a store under which the words of the specification apply. The names
  of the files stay apart once stripped, and none of them is then an array index or
  the version key:
\<close>

definition plain_names :: "store \<Rightarrow> bool" where
  "plain_names s =
     (distinct (map (\<lambda>e. stripSrcPrefix (fst e)) (files s))
      \<and> list_all (\<lambda>e. array_index (stripSrcPrefix (fst e)) = None
                       \<and> stripSrcPrefix (fst e) \<noteq> ''_version'') (files s))"


text \<open>and the content of the import map file, if there is one, parses as an import
  map:\<close>

definition import_map_readable :: "env \<Rightarrow> store \<Rightarrow> bool" where
  "import_map_readable env s =
     list_all (\<lambda>e. if stripSrcPrefix (fst e) = importMapFile
                   then (case JSON_parse env (code (snd e)) of
                           Inr (JObj m) \<Rightarrow> import_map_shape m
                         | _ \<Rightarrow> False)
                   else True) (files s)"

text \<open>
  The refs of a store that \<^verbatim>\<open>useStore\<close> creates from its defaults, before it loads
  any file: the selected preset, the preset catalogue and the built-in import map
  come from outside. \<^verbatim>\<open>activeFilename\<close> is set once the files are loaded.
\<close>

definition fresh_store :: "string \<Rightarrow> (string \<times> template) list \<Rightarrow> (string \<times> string) list \<Rightarrow> store" where
  "fresh_store selected defaultPresets builtin =
     \<lparr>files = [],
      activeFilename = [],
      activeConfigFilename = viteConfigFile,
      mainFile = welcomeFile,
      builtinImports = builtin,
      errors = [],
      vueVersion = None,
      tsMacroConfigCode = ''export default { plugins: [] }'',
      preset = selected,
      presets = defaultPresets,
      pending = []\<rparr>"

text \<open>The sample store after \<^verbatim>\<open>addFile('import-map.json')\<close>: the import map file is
  replaced by an empty one, which becomes the active config file.\<close>

definition sample_store_blank_map :: store where
  "sample_store_blank_map =
     sample_store
       \<lparr>files := [(''src/index.html'', new_File ''src/index.html'' ''<div id=app>'' True),
                  (''src/App.tsx'', new_File ''src/App.tsx'' ''hello'' False),
                  (''src/util.ts'', new_File ''src/util.ts'' ''u'' False),
                  (''import-map.json'', new_File ''import-map.json'' [] False)],
        activeConfigFilename := ''import-map.json''\<rparr>"

text \<open>The store that \<^verbatim>\<open>useStore\<close> starts from in the examples.\<close>

definition sample_fresh :: store where
  "sample_fresh = fresh_store ''vue-jsx'' [(''vue-jsx'', sample_template)] [(''vue'', ''https://A'')]"

section \<open>Facts about objects\<close>

lemma map_of_insert_index:
  "map_of obj k = None \<Longrightarrow> map_of (insert_index n k v obj) = (map_of obj)(k \<mapsto> v)"
  by (induction obj) (auto split: option.splits if_splits simp: fun_upd_twist)

lemma map_of_obj_set: "map_of (obj_set obj k v) = (map_of obj)(k \<mapsto> v)"
proof (cases "map_of obj k")
  case None
  have "map_of (obj @ [(k, v)]) = (map_of obj)(k \<mapsto> v)"
    using None by (auto simp: map_add_def fun_eq_iff split: option.splits)
  then show ?thesis
    using None by (simp add: obj_set_def map_of_insert_index split: option.splits)
next
  case (Some a)
  then show ?thesis by (simp add: obj_set_def update_conv')
qed

lemma map_of_obj_delete: "map_of (obj_delete obj k) = (map_of obj)(k := None)"
  by (simp add: obj_delete_def delete_conv')

lemma obj_delete_filter: "obj_delete obj k = filter (\<lambda>e. fst e \<noteq> k) obj"
  by (auto simp: obj_delete_def AList.delete_eq intro: filter_cong)

lemma insert_index_append:
  "list_all (\<lambda>e. case array_index (fst e) of Some m \<Rightarrow> m < n | None \<Rightarrow> False) obj
   \<Longrightarrow> insert_index n k v obj = obj @ [(k, v)]"
  by (induction obj) (auto split: option.splits)

text \<open>A name that comes after all the names of an object is added at its end.\<close>

lemma obj_set_append:
  assumes "map_of obj k = None" and "list_all (\<lambda>e. key_before (fst e) k) obj"
  shows "obj_set obj k v = obj @ [(k, v)]"
proof (cases "array_index k")
  case None
  with assms(1) show ?thesis by (simp add: obj_set_def)
next
  case (Some n)
  have "list_all (\<lambda>e. case array_index (fst e) of Some m \<Rightarrow> m < n | None \<Rightarrow> False) obj"
    using assms(2) Some by (auto simp: list_all_iff key_before_def split: option.splits)
  then show ?thesis using assms(1) Some by (simp add: obj_set_def insert_index_append)
qed

text \<open>Copying the properties of an object one by one, in its own order, gives the
  same object.\<close>

lemma fold_obj_set_rebuild:
  "js_obj (acc @ kvs) \<Longrightarrow> fold (\<lambda>e a. obj_set a (fst e) (snd e)) kvs acc = acc @ kvs"
proof (induction kvs arbitrary: acc)
  case Nil
  then show ?case by simp
next
  case (Cons e kvs)
  have d: "fst e \<notin> fst ` set acc" and s: "list_all (\<lambda>x. key_before (fst x) (fst e)) acc"
    using Cons.prems by (auto simp: js_obj_def sorted_wrt_append list_all_iff)
  have "obj_set acc (fst e) (snd e) = acc @ [e]"
    using d s by (simp add: obj_set_append map_of_eq_None_iff)
  moreover have "js_obj ((acc @ [e]) @ kvs)" using Cons.prems by simp
  ultimately show ?case using Cons.IH[of "acc @ [e]"] by simp
qed

lemma no_index_sorted:
  "list_all (\<lambda>k. array_index k = None) ks \<Longrightarrow> sorted_wrt key_before ks"
  by (induction ks) (auto simp: key_before_def list_all_iff)

lemma update_existing:
  "map_of al k = Some v \<Longrightarrow> distinct (map fst al) \<Longrightarrow>
   AList.update k v' al = map (\<lambda>e. if fst e = k then (k, v') else e) al"
proof (induction al)
  case Nil
  then show ?case by simp
next
  case (Cons p al)
  show ?case
  proof (cases "fst p = k")
    case True
    with Cons.prems(2) have "\<forall>e\<in>set al. fst e \<noteq> k" by (auto simp: image_iff)
    then have "map (\<lambda>e. if fst e = k then (k, v') else e) al = al"
      by (simp add: map_idI)
    with True show ?thesis by (cases p) simp
  next
    case False
    with Cons show ?thesis by (cases p) auto
  qed
qed


lemma distinct_entry:
  "distinct (map fst m) \<Longrightarrow> map_of m k = Some v \<Longrightarrow> e \<in> set m \<Longrightarrow> fst e = k \<Longrightarrow> snd e = v"
  by (metis map_of_eq_Some_iff option.inject prod.collapse)

lemma no_entry:
  "map_of m k = None \<Longrightarrow> e \<in> set m \<Longrightarrow> fst e \<noteq> k"
  by (auto simp: map_of_eq_None_iff)

lemma distinct_entry_eq:
  "distinct (map fst m) \<Longrightarrow> map_of m k = Some v \<Longrightarrow> e \<in> set m \<Longrightarrow> fst e = k \<Longrightarrow> e = (k, v)"
  by (metis distinct_entry prod.collapse)

lemma concat_map_if:
  "concat (map (\<lambda>e. if P e then [] else [g e]) xs) = map g (filter (\<lambda>e. \<not> P e) xs)"
  by (induction xs) auto


section \<open>Facts about file names\<close>

lemma reserved_not_src [simp]:
  "\<not> prefix ''src/'' importMapFile" "\<not> prefix ''src/'' tsconfigFile"
  "\<not> prefix ''src/'' viteConfigFile" "\<not> prefix ''src/'' tsMacroConfigFile"
  by (simp_all add: importMapFile_def tsconfigFile_def viteConfigFile_def tsMacroConfigFile_def)





section \<open>Facts about the sample store\<close>

lemma sample_names_plain:
  "array_index ''src/index.html'' = None" "array_index ''src/App.tsx'' = None"
  "array_index ''src/util.ts'' = None" "array_index ''import-map.json'' = None"
  "array_index ''src/Main.tsx'' = None" "array_index ''index.html'' = None"
  "array_index ''App.tsx'' = None" "array_index ''util.ts'' = None"
  "array_index ''_version'' = None" "array_index ''tsconfig.json'' = None"
  by (simp_all add: array_index_def is_digit_def)


lemma sample_parse_simps:
  "sample_parse ''{}'' = Inr (JObj [])"
  "sample_parse [] = Inl ''Unexpected end of JSON input''"
  "sample_parse ''{'' = Inl ''Unexpected end of JSON input''"
  by (simp_all add: sample_parse_def sample_json_def sample_import_map_text_def
      sample_pruned_text_def sample_saved_text_def sample_scoped_text_def)

lemma sample_table:
  "sample_parse sample_import_map_text =
     Inr (JObj [(''imports'', JObj [(''vue'', JStr ''https://A''), (''foo'', JStr ''https://B'')])])"
  "sample_stringify 2 sample_pruned = sample_pruned_text"
  "sample_stringify 0 sample_saved = sample_saved_text"
  "sample_parse sample_saved_text = Inr sample_saved"
  "sample_stringify 2 sample_scoped = sample_scoped_text"
  by (simp_all add: sample_parse_def sample_stringify_def sample_json_def sample_import_map_text_def
      sample_pruned_text_def sample_saved_text_def sample_saved_def sample_pruned_def
      sample_scoped_def sample_scoped_text_def)




lemma sample_spec_files:
  "spec_files sample_env sample_store =
     [(''index.html'', Exported ''<div id=app>'' (Some True)),
      (''App.tsx'', Exported ''hello'' (Some False)),
      (''util.ts'', Exported ''u'' (Some False)),
      (''import-map.json'', Exported sample_pruned_text None)]"
  by (simp add: spec_files_def spec_export_def sample_store_def stripSrcPrefix_def importMapFile_def
      new_File_def spec_import_map_entry_def sample_env_def sample_table spec_import_map_def
      spec_drop_empty_def spec_drop_builtin_def same_as_builtin_def sample_pruned_def [symmetric])

lemma sample_spec_serialized: "spec_serialized sample_env sample_store = sample_saved"
  by (simp add: spec_serialized_def sample_spec_files spec_version_def sample_saved_def)
    (simp add: sample_store_def)

section \<open>Renaming, adding and deleting files\<close>





text \<open>
  The order is also not kept when a name is an array index, which an object lists
  before its other names: renamed to \<^verbatim>\<open>7\<close>, the second file comes first.
\<close>

lemma renameFile_array_index_name:
  "map fst (files (renameFile ''src/App.tsx'' ''7'' sample_store)) =
     [''7'', ''src/index.html'', ''src/util.ts'', ''import-map.json'']"
  by (simp add: renameFile_def sample_store_def Let_def rename_step_def obj_set_def
      sample_names_plain new_File_def array_index_def is_digit_def decimal_value_def)



text \<open>
  C4, at a failing input. \<^verbatim>\<open>deleteFile\<close> removes whatever name it is given once the
  user confirms, the main file included, and does not pick another main file: in
  the sample store \<^verbatim>\<open>mainFile\<close> names a file before \<^verbatim>\<open>deleteFile(mainFile)\<close> and names
  none after it. The active file, sent back to \<^verbatim>\<open>mainFile\<close>, names none either.
\<close>

theorem deleteFile_mainFile_dangles:
  "map_of (files sample_store) (mainFile sample_store) =
     Some (new_File ''src/App.tsx'' ''hello'' False)
   \<and> confirm sample_env
        (''Are you sure you want to delete '' @ stripSrcPrefix (mainFile sample_store) @ ''?'')
   \<and> map_of (files (deleteFile sample_env (mainFile sample_store) sample_store))
        (mainFile (deleteFile sample_env (mainFile sample_store) sample_store)) = None
   \<and> map_of (files (deleteFile sample_env (mainFile sample_store) sample_store))
        (activeFilename (deleteFile sample_env (mainFile sample_store) sample_store)) = None"
  by (simp add: deleteFile_def sample_store_def sample_env_def obj_delete_def Let_def)

text \<open>
  The other operations keep the main file among the files: \<^verbatim>\<open>renameFile\<close> moves
  \<^verbatim>\<open>mainFile\<close> with the file, \<^verbatim>\<open>addFile\<close>, \<^verbatim>\<open>deserialize\<close> and the default files only add
  or replace entries, \<^verbatim>\<open>deleteFile\<close> of another file leaves it, and \<^verbatim>\<open>useStore\<close> picks a
  file that exists.
\<close>

lemma key_of_Some: "map_of al k = Some v \<Longrightarrow> k \<in> set (map fst al)"
  by (metis map_of_eq_None_iff option.distinct(1) set_map)

lemma Some_of_key: "k \<in> set (map fst al) \<Longrightarrow> \<exists>v. map_of al k = Some v"
  by (metis map_of_eq_None_iff not_None_eq set_map)

lemma dom_fold_rename_step:
  "dom (map_of (fold (rename_step oo nn) entries acc)) =
     dom (map_of acc) \<union> (\<lambda>k. if k = oo then nn else k) ` fst ` set entries"
  by (induction entries arbitrary: acc) (auto simp: rename_step_def map_of_obj_set)

lemma renameFile_keeps_mainFile:
  assumes "map_of (files s) (mainFile s) \<noteq> None"
  shows "map_of (files (renameFile oo nn s)) (mainFile (renameFile oo nn s)) \<noteq> None"
proof (cases "map_of (files s) oo = None \<or> nn = [] \<or> oo = nn")
  case True
  then show ?thesis using assms by (auto simp: renameFile_def split: option.splits)
next
  case False
  then obtain fl where f: "map_of (files s) oo = Some fl" by auto
  let ?entries = "AList.update oo (fl\<lparr>filename := nn\<rparr>) (files s)"
  have "oo \<in> set (map fst (files s))"
    using f by (rule key_of_Some)
  then have "map fst ?entries = map fst (files s)"
    by (simp add: update_keys)
  then have "fst ` set ?entries = fst ` set (files s)"
    by (metis set_map)
  moreover have "mainFile s \<in> fst ` set (files s)"
    using assms by (simp add: map_of_eq_None_iff)
  ultimately have "(if mainFile s = oo then nn else mainFile s)
      \<in> dom (map_of (fold (rename_step oo nn) ?entries []))"
    unfolding dom_fold_rename_step by auto
  then show ?thesis
    using False f by (auto simp: renameFile_def Let_def)
qed

lemma addFile_keeps_mainFile:
  "map_of (files s) (mainFile s) \<noteq> None \<Longrightarrow> addFile x s = Inr s' \<Longrightarrow>
   map_of (files s') (mainFile s') \<noteq> None"
  by (auto simp: addFile_def setActive_def map_of_obj_set Let_def
      split: sum.splits if_splits option.splits)

lemma deleteFile_other_keeps_mainFile:
  "map_of (files s) (mainFile s) \<noteq> None \<Longrightarrow> name \<noteq> mainFile s \<Longrightarrow>
   map_of (files (deleteFile env name s)) (mainFile (deleteFile env name s)) \<noteq> None"
  by (auto simp: deleteFile_def map_of_obj_delete Let_def)

lemma restore_keeps_mainFile:
  "map_of (files s) (mainFile s) \<noteq> None \<Longrightarrow> restore entries s = Inr s' \<Longrightarrow>
   map_of (files s') (mainFile s') \<noteq> None"
proof (induction entries arbitrary: s)
  case Nil
  then show ?case by simp
next
  case (Cons e entries)
  from Cons.prems(2) obtain s1 where 1: "restore_entry e s = Inr s1" and 2: "restore entries s1 = Inr s'"
    by (auto split: sum.splits)
  from 1 Cons.prems(1) have "map_of (files s1) (mainFile s1) \<noteq> None"
    by (auto simp: restore_entry_def setFile_def map_of_obj_set Let_def
        split: if_splits json.splits sum.splits)
  then show ?case using 2 by (rule Cons.IH)
qed

lemma setDefaultFile_keeps_mainFile:
  "map_of (files s) (mainFile s) \<noteq> None \<Longrightarrow> setDefaultFile s = Inr s' \<Longrightarrow>
   map_of (files s') (mainFile s') \<noteq> None"
  by (auto simp: setDefaultFile_def setFile_def map_of_obj_set Let_def split: option.splits)

lemma deserialize_keeps_mainFile:
  assumes "map_of (files s) (mainFile s) \<noteq> None" and "deserialize env z s = Inr s'"
  shows "map_of (files s') (mainFile s') \<noteq> None"
proof -
  from assms(2) have "setDefaultFile s = Inr s' \<or> (\<exists>entries. restore entries s = Inr s')"
    by (auto simp: deserialize_def Let_def split: option.splits sum.splits)
  then show ?thesis
    using assms(1) setDefaultFile_keeps_mainFile restore_keeps_mainFile by blast
qed

lemma find_in_set: "find P xs = Some x \<Longrightarrow> x \<in> set xs"
  by (auto simp: find_Some_iff)

lemma useStore_load_mainFile:
  assumes "useStore_load env state active s = Inr s'"
  shows "map_of (files s') (mainFile s') \<noteq> None"
  using assms unfolding useStore_load_def
  by (auto split: sum.splits option.splits if_splits
      dest!: find_in_set Some_of_key simp del: set_map)




text \<open>
  C6. \<^verbatim>\<open>deleteFile(f)\<close> asks the user with the file's name, shown without its \<^verbatim>\<open>src/\<close>
  prefix. On yes, \<open>f\<close> is removed from the file mapping, the other entries stay in
  their order, and the active filename becomes \<^verbatim>\<open>mainFile\<close> if it was \<open>f\<close>. On no, the
  store is unchanged. So a file named \<open>f\<close> is gone afterwards exactly when the
  answer was yes.
\<close>

theorem deleteFile_asks:
  "(confirm env (''Are you sure you want to delete '' @ stripSrcPrefix f @ ''?'') \<longrightarrow>
      files (deleteFile env f s) = filter (\<lambda>e. fst e \<noteq> f) (files s)
      \<and> map_of (files (deleteFile env f s)) f = None
      \<and> activeFilename (deleteFile env f s) =
          (if activeFilename s = f then mainFile s else activeFilename s)
      \<and> mainFile (deleteFile env f s) = mainFile s
      \<and> activeConfigFilename (deleteFile env f s) = activeConfigFilename s)
   \<and> (\<not> confirm env (''Are you sure you want to delete '' @ stripSrcPrefix f @ ''?'') \<longrightarrow>
      deleteFile env f s = s)
   \<and> (map_of (files s) f \<noteq> None \<longrightarrow>
      (map_of (files (deleteFile env f s)) f = None
       \<longleftrightarrow> confirm env (''Are you sure you want to delete '' @ stripSrcPrefix f @ ''?'')))"
  by (auto simp: deleteFile_def obj_delete_filter Let_def map_of_eq_None_iff)

theorem deleteFile_asks_witness:
  "confirm sample_env (''Are you sure you want to delete '' @ stripSrcPrefix ''src/util.ts'' @ ''?'')
   \<and> map_of (files sample_store) ''src/util.ts'' \<noteq> None
   \<and> map fst (files (deleteFile sample_env ''src/util.ts'' sample_store)) =
       [''src/index.html'', ''src/App.tsx'', ''import-map.json'']
   \<and> activeFilename (deleteFile sample_env ''src/util.ts'' sample_store) = ''src/App.tsx''
   \<and> \<not> confirm (sample_env\<lparr>confirm := \<lambda>message. False\<rparr>)
          (''Are you sure you want to delete '' @ stripSrcPrefix ''src/util.ts'' @ ''?'')
   \<and> deleteFile (sample_env\<lparr>confirm := \<lambda>message. False\<rparr>) ''src/util.ts'' sample_store =
       sample_store"
  using deleteFile_asks [of sample_env "''src/util.ts''" sample_store]
    deleteFile_asks [of "sample_env\<lparr>confirm := \<lambda>message. False\<rparr>" "''src/util.ts''" sample_store]
  by (simp add: sample_env_def sample_store_def)

text \<open>
  C10. \<^verbatim>\<open>addSrcPrefix\<close> is idempotent; it returns its argument exactly for the four
  reserved names and for names that start with \<^verbatim>\<open>src/\<close>. \<^verbatim>\<open>stripSrcPrefix\<close> removes one
  leading \<^verbatim>\<open>src/\<close> and no more, and changes nothing else. Stripping after adding is
  stripping.
\<close>

theorem addSrcPrefix_stripSrcPrefix:
  "addSrcPrefix (addSrcPrefix f) = addSrcPrefix f
   \<and> (addSrcPrefix f = f \<longleftrightarrow>
        f = importMapFile \<or> f = tsconfigFile \<or> f = viteConfigFile \<or> f = tsMacroConfigFile
        \<or> prefix ''src/'' f)
   \<and> stripSrcPrefix (''src/'' @ g) = g
   \<and> (stripSrcPrefix f = f \<longleftrightarrow> \<not> prefix ''src/'' f)
   \<and> stripSrcPrefix (addSrcPrefix f) = stripSrcPrefix f"
proof -
  have a: "addSrcPrefix (addSrcPrefix f) = addSrcPrefix f"
    by (simp add: addSrcPrefix_def)
  have b: "addSrcPrefix f = f \<longleftrightarrow>
        f = importMapFile \<or> f = tsconfigFile \<or> f = viteConfigFile \<or> f = tsMacroConfigFile
        \<or> prefix ''src/'' f"
    by (simp add: addSrcPrefix_def)
  have c: "stripSrcPrefix (''src/'' @ g) = g"
    by (simp add: stripSrcPrefix_def)
  have d: "stripSrcPrefix f = f \<longleftrightarrow> \<not> prefix ''src/'' f"
  proof (cases "prefix ''src/'' f")
    case True
    then obtain r where "f = ''src/'' @ r" by (auto simp: prefix_def)
    then show ?thesis by (simp add: stripSrcPrefix_def)
  next
    case False
    then show ?thesis by (simp add: stripSrcPrefix_def)
  qed
  have e: "stripSrcPrefix (addSrcPrefix f) = stripSrcPrefix f"
    by (simp add: addSrcPrefix_def stripSrcPrefix_def)
  from a b c d e show ?thesis by blast
qed

theorem addSrcPrefix_stripSrcPrefix_witness:
  "addSrcPrefix ''App.tsx'' = ''src/App.tsx'' \<and> addSrcPrefix ''src/App.tsx'' = ''src/App.tsx''
   \<and> addSrcPrefix ''tsconfig.json'' = ''tsconfig.json''
   \<and> stripSrcPrefix ''src/src/a.ts'' = ''src/a.ts''
   \<and> stripSrcPrefix (addSrcPrefix ''App.tsx'') = stripSrcPrefix ''App.tsx''"
  using addSrcPrefix_stripSrcPrefix [of "''App.tsx''" "''src/a.ts''"]
  by (simp add: addSrcPrefix_def stripSrcPrefix_def importMapFile_def tsconfigFile_def
      viteConfigFile_def tsMacroConfigFile_def)

section \<open>The import map\<close>

text \<open>
  C7, as stated, fails for an import map file whose content is the empty text: that
  is not valid JSON, but \<^verbatim>\<open>code || '{}'\<close> reads \<^verbatim>\<open>{}\<close> in its place and no diagnostic is
  recorded. \<^verbatim>\<open>addFile('import-map.json')\<close> leaves such a file.
\<close>

theorem getImportMap_empty_counterexample:
  "addFile (Inl ''import-map.json'') sample_store = Inr sample_store_blank_map
   \<and> map_of (files sample_store_blank_map) importMapFile =
       Some (new_File ''import-map.json'' [] False)
   \<and> JSON_parse sample_env [] = Inl ''Unexpected end of JSON input''
   \<and> getImportMap sample_env sample_store_blank_map = (JObj [], sample_store_blank_map)
   \<and> errors sample_store_blank_map = []"
  by (simp add: addFile_def getImportMap_def sample_store_blank_map_def sample_store_def
      sample_env_def sample_parse_simps importMapFile_def new_File_def obj_set_def setActive_def
      suffix_to_prefix viteConfigFile_def tsMacroConfigFile_def tsconfigFile_def)


text \<open>
  C7, amended. When the import map file has a content that is not empty and that
  \<^verbatim>\<open>JSON.parse\<close> rejects with a message, \<^verbatim>\<open>getImportMap\<close> returns the empty map and
  replaces the error list by one diagnostic, which names the file and gives the
  message; it never throws. When the file is absent or its content is empty, it
  returns the empty map and leaves the error list as it is.
\<close>

theorem getImportMap_diagnostic:
  "(map_of (files s) importMapFile = Some f \<and> code f \<noteq> [] \<and> JSON_parse env (code f) = Inl msg
      \<longrightarrow> getImportMap env s =
            (JObj [], s\<lparr>errors := [''Syntax error in import-map.json: '' @ msg]\<rparr>))
   \<and> ((map_of (files s) importMapFile = None
        \<or> (\<exists>f. map_of (files s) importMapFile = Some f \<and> code f = []))
       \<and> JSON_parse env ''{}'' = Inr (JObj [])
      \<longrightarrow> getImportMap env s = (JObj [], s))"
  by (auto simp: getImportMap_def importMapFile_def)

theorem getImportMap_diagnostic_witness:
  "map_of (files (sample_store\<lparr>files := [(''import-map.json'', new_File ''import-map.json'' ''{'' False)]\<rparr>))
      importMapFile = Some (new_File ''import-map.json'' ''{'' False)
   \<and> code (new_File ''import-map.json'' ''{'' False) \<noteq> []
   \<and> JSON_parse sample_env (code (new_File ''import-map.json'' ''{'' False)) =
       Inl ''Unexpected end of JSON input''
   \<and> getImportMap sample_env
        (sample_store\<lparr>files := [(''import-map.json'', new_File ''import-map.json'' ''{'' False)]\<rparr>) =
       (JObj [],
        sample_store\<lparr>files := [(''import-map.json'', new_File ''import-map.json'' ''{'' False)],
          errors := [''Syntax error in import-map.json: Unexpected end of JSON input'']\<rparr>)
   \<and> map_of (files (sample_store\<lparr>files := []\<rparr>)) importMapFile = None
   \<and> JSON_parse sample_env ''{}'' = Inr (JObj [])
   \<and> getImportMap sample_env (sample_store\<lparr>files := []\<rparr>) = (JObj [], sample_store\<lparr>files := []\<rparr>)"
  using getImportMap_diagnostic
      [of "sample_store\<lparr>files := [(''import-map.json'', new_File ''import-map.json'' ''{'' False)]\<rparr>"
          "new_File ''import-map.json'' ''{'' False" sample_env "''Unexpected end of JSON input''"]
    getImportMap_diagnostic [of "sample_store\<lparr>files := []\<rparr>" _ sample_env]
  by (simp add: sample_env_def sample_parse_simps importMapFile_def new_File_def)

lemma replace_first_absent: "\<not> sublist pat u \<Longrightarrow> replace_first pat rep u = u"
proof (induction u)
  case Nil
  then show ?case by (cases pat) auto
next
  case (Cons c cs)
  have "\<not> prefix pat (c # cs)" using Cons.prems by auto
  moreover have "\<not> sublist pat cs" using Cons.prems by (auto simp: sublist_Cons_right)
  ultimately show ?case using Cons.IH by simp
qed

text \<open>The first occurrence is the one replaced.\<close>

lemma replace_first_at:
  "(\<forall>k<length a. \<not> prefix pat (drop k (a @ pat @ b))) \<Longrightarrow>
   replace_first pat rep (a @ pat @ b) = a @ rep @ b"
proof (induction a)
  case Nil
  show ?case by (cases pat; cases b) simp_all
next
  case (Cons c a)
  have "\<not> prefix pat ((c # a) @ pat @ b)" using Cons.prems by force
  moreover have "\<forall>k<length a. \<not> prefix pat (drop k (a @ pat @ b))"
    using Cons.prems by force
  ultimately show ?case using Cons.IH by simp
qed

lemma fix_entries_strings:
  "fix_entries (map (\<lambda>e. (fst e, JStr (snd e))) urls) =
     Inr (map (\<lambda>e. (fst e, JStr (fixURL (snd e)))) urls)"
  by (induction urls) auto

text \<open>
  C9, as stated, fails for the URLs under \<^verbatim>\<open>scopes\<close>: the loop of \<^verbatim>\<open>setImportMap\<close> goes
  over \<^verbatim>\<open>map.imports\<close> only. An import map with \<^verbatim>\<open>https://sfc.vuejs.org/vue.js\<close> in a scope
  is printed as it is, and the import map file then holds that URL of the public
  host, although \<open>fixURL\<close> would rewrite it.
\<close>

theorem setImportMap_scopes_counterexample:
  "sample_scoped =
     JObj [(''scopes'',
            JObj [(''https://x/'', JObj [(''vue'', JStr ''https://sfc.vuejs.org/vue.js'')])])]
   \<and> fixURL ''https://sfc.vuejs.org/vue.js'' = ''https://play.vuejs.org/vue.js''
   \<and> setImportMap sample_env sample_scoped sample_store =
       Inr (sample_store
             \<lparr>files := [(''src/index.html'', new_File ''src/index.html'' ''<div id=app>'' True),
                        (''src/App.tsx'', new_File ''src/App.tsx'' ''hello'' False),
                        (''src/util.ts'', new_File ''src/util.ts'' ''u'' False),
                        (''import-map.json'',
                         new_File ''import-map.json'' (JSON_stringify sample_env 2 sample_scoped)
                           False)]\<rparr>)
   \<and> JSON_stringify sample_env 2 sample_scoped = sample_scoped_text"
proof -
  have "fix_imports sample_scoped = Inr sample_scoped" by (simp add: sample_scoped_def)
  then have "setImportMap sample_env sample_scoped sample_store =
       Inr (sample_store
             \<lparr>files := [(''src/index.html'', new_File ''src/index.html'' ''<div id=app>'' True),
                        (''src/App.tsx'', new_File ''src/App.tsx'' ''hello'' False),
                        (''src/util.ts'', new_File ''src/util.ts'' ''u'' False),
                        (''import-map.json'',
                         new_File ''import-map.json'' (JSON_stringify sample_env 2 sample_scoped)
                           False)]\<rparr>)"
    by (simp add: setImportMap_def sample_store_def importMapFile_def obj_set_def new_File_def)
  moreover have "JSON_stringify sample_env 2 sample_scoped = sample_scoped_text"
    by (simp add: sample_env_def sample_table)
  moreover have "fixURL ''https://sfc.vuejs.org/vue.js'' = ''https://play.vuejs.org/vue.js''"
    by (simp add: fixURL_def)
  ultimately show ?thesis by (simp add: sample_scoped_def)
qed

text \<open>
  C9, amended. For an import map \<open>m\<close> whose \<^verbatim>\<open>imports\<close>, if it has any, maps names to URL
  strings, \<^verbatim>\<open>setImportMap\<close> replaces each of the URLs \<open>u\<close> under \<^verbatim>\<open>imports\<close> by \<open>fixURL u\<close>
  and leaves the rest of the map, \<^verbatim>\<open>scopes\<close> included, as it is; it prints the map with
  indent 2 and makes the text the content of the import map file: of the file that
  is there, otherwise of a new one that is not hidden. No other file and no other
  part of the store changes. \<open>fixURL\<close> puts \<^verbatim>\<open>https://play.vuejs\<close> in the place of
  \<^verbatim>\<open>https://sfc.vuejs\<close> and leaves a URL without that text as it is.
\<close>

theorem setImportMap_rewrites:
  assumes "map_of m ''imports'' =
             map_option (\<lambda>urls. JObj (map (\<lambda>e. (fst e, JStr (snd e))) urls)) imps"
  shows "\<exists>s'. setImportMap env (JObj m) s = Inr s'
      \<and> map_of (files s') importMapFile =
          Some ((case map_of (files s) importMapFile of
                   None \<Rightarrow> new_File importMapFile [] False
                 | Some f \<Rightarrow> f)
                \<lparr>code := JSON_stringify env 2
                   (JObj (case imps of
                            None \<Rightarrow> m
                          | Some urls \<Rightarrow>
                              AList.update ''imports''
                                (JObj (map (\<lambda>e. (fst e, JStr (fixURL (snd e)))) urls)) m))\<rparr>)
      \<and> (\<forall>g. g \<noteq> importMapFile \<longrightarrow> map_of (files s') g = map_of (files s) g)
      \<and> s' = s\<lparr>files := files s'\<rparr>
      \<and> fixURL (''https://sfc.vuejs'' @ rest) = ''https://play.vuejs'' @ rest
      \<and> (\<not> sublist ''https://sfc.vuejs'' u \<longrightarrow> fixURL u = u)"
proof -
  have a: "fixURL (''https://sfc.vuejs'' @ rest) = ''https://play.vuejs'' @ rest"
    by (simp add: fixURL_def)
  have b: "\<not> sublist ''https://sfc.vuejs'' u \<longrightarrow> fixURL u = u"
    by (simp add: fixURL_def replace_first_absent)
  show ?thesis
  proof (cases imps)
    case None
    with assms have "fix_imports (JObj m) = Inr (JObj m)" by simp
    with None a b show ?thesis
      by (auto simp: setImportMap_def map_of_obj_set new_File_def Let_def split: option.splits)
  next
    case (Some urls)
    with assms have "fix_imports (JObj m) =
        Inr (JObj (AList.update ''imports'' (JObj (map (\<lambda>e. (fst e, JStr (fixURL (snd e)))) urls)) m))"
      by (simp add: fix_entries_strings)
    with Some a b show ?thesis
      by (auto simp: setImportMap_def map_of_obj_set new_File_def Let_def split: option.splits)
  qed
qed

theorem setImportMap_rewrites_witness:
  "map_of [(''imports'', JObj [(''vue'', JStr ''https://sfc.vuejs.org/vue.js'')])] ''imports'' =
     map_option (\<lambda>urls. JObj (map (\<lambda>e. (fst e, JStr (snd e))) urls))
       (Some [(''vue'', ''https://sfc.vuejs.org/vue.js'')])
   \<and> (\<exists>s'. setImportMap sample_env
              (JObj [(''imports'', JObj [(''vue'', JStr ''https://sfc.vuejs.org/vue.js'')])])
              sample_store = Inr s'
         \<and> map_of (files s') importMapFile =
             Some (new_File ''import-map.json''
                    (JSON_stringify sample_env 2
                       (JObj [(''imports'', JObj [(''vue'', JStr ''https://play.vuejs.org/vue.js'')])]))
                    False))"
proof -
  have h: "map_of [(''imports'', JObj [(''vue'', JStr ''https://sfc.vuejs.org/vue.js'')])] ''imports'' =
     map_option (\<lambda>urls. JObj (map (\<lambda>e. (fst e, JStr (snd e))) urls))
       (Some [(''vue'', ''https://sfc.vuejs.org/vue.js'')])"
    by simp
  have f: "fixURL ''https://sfc.vuejs.org/vue.js'' = ''https://play.vuejs.org/vue.js''"
    by (simp add: fixURL_def)
  have i: "map_of (files sample_store) importMapFile =
      Some (new_File ''import-map.json'' sample_import_map_text False)"
    by (simp add: sample_store_def importMapFile_def)
  show ?thesis
    using setImportMap_rewrites
        [OF h, where env = sample_env and s = sample_store and rest = "[]" and u = "[]"] h
    by (auto simp: i f new_File_def)
qed

section \<open>Serializing\<close>

lemma fold_getFiles_step:
  "fold getFiles_step fs acc =
   fold (\<lambda>e a. obj_set a (fst e) (snd e)) (spec_export fs) acc"
  by (induction fs arbitrary: acc) (simp_all add: getFiles_step_def spec_export_def)

lemma getFiles_spec:
  assumes "plain_names s"
  shows "getFiles s = spec_export (files s)"
proof -
  have k: "map fst (spec_export (files s)) = map (\<lambda>e. stripSrcPrefix (fst e)) (files s)"
    by (simp add: spec_export_def comp_def)
  have "list_all (\<lambda>k. array_index k = None) (map (\<lambda>e. stripSrcPrefix (fst e)) (files s))"
    using assms by (simp add: plain_names_def list_all_iff)
  then have "sorted_wrt key_before (map fst (spec_export (files s)))"
    unfolding k by (rule no_index_sorted)
  moreover have "distinct (map fst (spec_export (files s)))"
    unfolding k using assms by (simp add: plain_names_def)
  ultimately have "js_obj ([] @ spec_export (files s))" by (simp add: js_obj_def)
  then show ?thesis
    unfolding getFiles_def fold_getFiles_step by (rule fold_obj_set_rebuild [THEN trans]) simp
qed

lemma prune_imports_spec:
  assumes "distinct (map fst m)" and "object_or_falsy (map_of m ''imports'')"
  shows "prune_imports builtin m =
           Inr (spec_drop_empty ''imports'' (spec_drop_builtin builtin m))"
proof (cases "map_of m ''imports''")
  case None
  then have "\<forall>e\<in>set m. fst e \<noteq> ''imports''" by (auto dest: no_entry)
  then have "spec_drop_builtin builtin m = m" "spec_drop_empty ''imports'' m = m"
    by (auto simp: spec_drop_builtin_def spec_drop_empty_def map_idI filter_id_conv)
  with None show ?thesis by (simp add: prune_imports_def)
next
  case (Some v)
  have ent: "\<And>e. e \<in> set m \<Longrightarrow> fst e = ''imports'' \<Longrightarrow> e = (''imports'', v)"
    using assms(1) Some by (rule distinct_entry_eq)
  show ?thesis
  proof (cases "\<exists>es. v = JObj es")
    case True
    then obtain es where JObj: "v = JObj es" by blast
    let ?es = "filter (\<lambda>i. \<not> same_as_builtin builtin i) es"
    have "\<And>e. e \<in> set m \<Longrightarrow>
        (if fst e = ''imports''
         then (case snd e of
                 JObj es \<Rightarrow> (''imports'', JObj (filter (\<lambda>i. \<not> same_as_builtin builtin i) es))
               | _ \<Rightarrow> e)
         else e) = (if fst e = ''imports'' then (''imports'', JObj ?es) else e)"
      using ent JObj by fastforce
    then have sdb: "spec_drop_builtin builtin m =
        map (\<lambda>e. if fst e = ''imports'' then (''imports'', JObj ?es) else e) m"
      unfolding spec_drop_builtin_def by (rule map_cong [OF refl])
    have upd: "AList.update ''imports'' (JObj ?es) m =
        map (\<lambda>e. if fst e = ''imports'' then (''imports'', JObj ?es) else e) m"
      using Some assms(1) by (rule update_existing)
    show ?thesis
    proof (cases "?es = []")
      case True
      have "spec_drop_empty ''imports'' (spec_drop_builtin builtin m) =
          filter (\<lambda>e. fst e \<noteq> ''imports'') m"
        unfolding sdb spec_drop_empty_def using True
        by (induction m) auto
      with True Some JObj show ?thesis
        by (simp add: prune_imports_def obj_delete_filter)
    next
      case False
      have "spec_drop_empty ''imports'' (spec_drop_builtin builtin m) =
          map (\<lambda>e. if fst e = ''imports'' then (''imports'', JObj ?es) else e) m"
        unfolding sdb spec_drop_empty_def using False
        by (auto simp: filter_id_conv)
      with False Some JObj upd show ?thesis
        by (simp add: prune_imports_def)
    qed
  next
    case False
    have "\<And>e. e \<in> set m \<Longrightarrow>
        (if fst e = ''imports''
         then (case snd e of
                 JObj es \<Rightarrow> (''imports'', JObj (filter (\<lambda>i. \<not> same_as_builtin builtin i) es))
               | _ \<Rightarrow> e)
         else e) = e"
      using ent False by (fastforce split: json.splits)
    then have "spec_drop_builtin builtin m = m"
      unfolding spec_drop_builtin_def by (simp add: map_idI)
    moreover have "spec_drop_empty ''imports'' m = m"
      unfolding spec_drop_empty_def using ent False by (fastforce simp: filter_id_conv)
    moreover have "prune_imports builtin m = Inr m"
      using Some False assms(2) by (cases v) (simp_all add: prune_imports_def)
    ultimately show ?thesis by simp
  qed
qed

lemma prune_scopes_spec:
  assumes "distinct (map fst m)" and "object_or_falsy (map_of m ''scopes'')"
  shows "prune_scopes m = Inr (spec_drop_empty ''scopes'' m)"
proof (cases "map_of m ''scopes''")
  case None
  then have "\<forall>e\<in>set m. fst e \<noteq> ''scopes''" by (auto dest: no_entry)
  then have "spec_drop_empty ''scopes'' m = m"
    by (auto simp: spec_drop_empty_def filter_id_conv)
  with None show ?thesis by (simp add: prune_scopes_def)
next
  case (Some v)
  have ent: "\<And>e. e \<in> set m \<Longrightarrow> fst e = ''scopes'' \<Longrightarrow> e = (''scopes'', v)"
    using assms(1) Some by (rule distinct_entry_eq)
  show ?thesis
  proof (cases "v = JObj []")
    case True
    have "spec_drop_empty ''scopes'' m = filter (\<lambda>e. fst e \<noteq> ''scopes'') m"
      unfolding spec_drop_empty_def using ent True by (fastforce intro!: filter_cong)
    with True Some show ?thesis by (simp add: prune_scopes_def obj_delete_filter)
  next
    case False
    have "spec_drop_empty ''scopes'' m = m"
      unfolding spec_drop_empty_def using ent False by (fastforce simp: filter_id_conv)
    with False Some assms(2) show ?thesis
      by (cases v) (simp_all add: prune_scopes_def)
  qed
qed

lemma spec_drop_keys:
  "map fst (spec_drop_builtin builtin m) = map fst m"
  "distinct (map fst m) \<Longrightarrow> distinct (map fst (spec_drop_empty k m))"
  "k \<noteq> k' \<Longrightarrow> map_of (spec_drop_empty k m) k' = map_of m k'"
  "map_of (spec_drop_builtin builtin m) ''scopes'' = map_of m ''scopes''"
proof -
  show "map fst (spec_drop_builtin builtin m) = map fst m"
    by (induction m) (auto simp: spec_drop_builtin_def split: json.splits)
  show "distinct (map fst m) \<Longrightarrow> distinct (map fst (spec_drop_empty k m))"
    by (simp add: spec_drop_empty_def distinct_map_filter)
  show "k \<noteq> k' \<Longrightarrow> map_of (spec_drop_empty k m) k' = map_of m k'"
    by (induction m) (auto simp: spec_drop_empty_def)
  show "map_of (spec_drop_builtin builtin m) ''scopes'' = map_of m ''scopes''"
    by (induction m) (auto simp: spec_drop_builtin_def split: json.splits)
qed

lemma prune_import_map_spec:
  assumes "import_map_shape m"
  shows "prune_import_map builtin (JObj m) = Inr (spec_import_map builtin m)"
proof -
  let ?m1 = "spec_drop_empty ''imports'' (spec_drop_builtin builtin m)"
  have d: "distinct (map fst m)" and i: "object_or_falsy (map_of m ''imports'')"
    and sc: "object_or_falsy (map_of m ''scopes'')"
    using assms by (simp_all add: import_map_shape_def)
  have 1: "prune_imports builtin m = Inr ?m1" using d i by (rule prune_imports_spec)
  have "distinct (map fst (spec_drop_builtin builtin m))" using d by (simp add: spec_drop_keys(1))
  then have d1: "distinct (map fst ?m1)" by (rule spec_drop_keys(2))
  have "map_of ?m1 ''scopes'' = map_of m ''scopes''"
    by (simp add: spec_drop_keys(3,4))
  with sc have "object_or_falsy (map_of ?m1 ''scopes'')" by simp
  with d1 have "prune_scopes ?m1 = Inr (spec_drop_empty ''scopes'' ?m1)"
    by (rule prune_scopes_spec)
  with 1 show ?thesis by (simp add: spec_import_map_def)
qed

lemma serialize_import_map_spec:
  assumes d: "distinct (map fst fs)"
    and r: "\<And>e. e \<in> set fs \<Longrightarrow> fst e = importMapFile \<Longrightarrow>
              (case JSON_parse env (ex_code (snd e)) of
                 Inr (JObj m) \<Rightarrow> import_map_shape m | _ \<Rightarrow> False)"
  shows "serialize_import_map env s fs =
     Inr (concat (map (\<lambda>e. if fst e = importMapFile
                      then spec_import_map_entry env (builtinImports s) (ex_code (snd e))
                      else [e]) fs))"
proof (cases "map_of fs importMapFile")
  case None
  then have "\<forall>e\<in>set fs. fst e \<noteq> importMapFile" by (auto dest: no_entry)
  then have "concat (map (\<lambda>e. if fst e = importMapFile
                      then spec_import_map_entry env (builtinImports s) (ex_code (snd e))
                      else [e]) fs) = fs"
    by (induction fs) auto
  then show ?thesis using None by (simp add: serialize_import_map_def)
next
  case (Some importMap)
  have ent: "\<And>e. e \<in> set fs \<Longrightarrow> fst e = importMapFile \<Longrightarrow> e = (importMapFile, importMap)"
    using d Some by (rule distinct_entry_eq)
  have "(importMapFile, importMap) \<in> set fs" using Some by (rule map_of_SomeD)
  from r [OF this] obtain m where
    p: "JSON_parse env (ex_code importMap) = Inr (JObj m)" and sh: "import_map_shape m"
    by (auto split: sum.splits json.splits)
  let ?m' = "spec_import_map (builtinImports s) m"
  let ?entry = "spec_import_map_entry env (builtinImports s) (ex_code importMap)"
  have pr: "prune_import_map (builtinImports s) (JObj m) = Inr ?m'"
    using sh by (rule prune_import_map_spec)
  have fn: "map (\<lambda>e. if fst e = importMapFile
                      then spec_import_map_entry env (builtinImports s) (ex_code (snd e))
                      else [e]) fs =
            map (\<lambda>e. if fst e = importMapFile then ?entry else [e]) fs"
    using ent by (fastforce intro!: map_cong)
  show ?thesis
  proof (cases "?m' = []")
    case True
    then have en: "?entry = []" using p by (simp add: spec_import_map_entry_def)
    have "concat (map (\<lambda>e. if fst e = importMapFile then ?entry else [e]) fs) =
        filter (\<lambda>e. fst e \<noteq> importMapFile) fs"
      unfolding en using concat_map_if [of "\<lambda>e. fst e = importMapFile" "\<lambda>e. e" fs] by simp
    then show ?thesis
      unfolding fn using Some p pr True
      by (simp add: serialize_import_map_def obj_delete_filter)
  next
    case False
    let ?x = "Exported (JSON_stringify env 2 (JObj ?m')) None"
    have e: "?entry = [(importMapFile, ?x)]"
      using p False by (simp add: spec_import_map_entry_def)
    have "obj_set fs importMapFile ?x = AList.update importMapFile ?x fs"
      using Some by (simp add: obj_set_def)
    also have "\<dots> = map (\<lambda>e. if fst e = importMapFile then (importMapFile, ?x) else e) fs"
      using Some d by (rule update_existing)
    also have "\<dots> = concat (map (\<lambda>e. if fst e = importMapFile then ?entry else [e]) fs)"
      unfolding e by (induction fs) auto
    finally show ?thesis
      unfolding fn using Some p pr False
      by (simp add: serialize_import_map_def)
  qed
qed

lemma with_version_spec:
  "map_of obj ''_version'' = None \<Longrightarrow> with_version version obj = obj @ spec_version version"
proof -
  assume n: "map_of obj ''_version'' = None"
  have "array_index ''_version'' = None" by (simp add: array_index_def is_digit_def)
  then have "list_all (\<lambda>e. key_before (fst e) ''_version'') obj"
    by (auto simp: list_all_iff key_before_def split: option.splits)
  with n have "\<And>v. obj_set obj ''_version'' v = obj @ [(''_version'', v)]"
    by (rule obj_set_append)
  then show ?thesis
    by (simp add: with_version_def spec_version_def split: option.splits)
qed

lemma spec_files_keys:
  "set (map fst (spec_files env s)) \<subseteq> set (map fst (spec_export (files s)))"
  by (auto simp: spec_files_def spec_import_map_entry_def
      split: if_splits sum.splits json.splits intro: rev_image_eqI)

lemma serialize_spec:
  assumes "plain_names s" and "import_map_readable env s"
  shows "serialize env s =
           Inr (''#'' @ utoa env (JSON_stringify env 0 (spec_serialized env s)))"
proof -
  have g: "getFiles s = spec_export (files s)" using assms(1) by (rule getFiles_spec)
  have k: "map fst (spec_export (files s)) = map (\<lambda>e. stripSrcPrefix (fst e)) (files s)"
    by (simp add: spec_export_def comp_def)
  have d: "distinct (map fst (spec_export (files s)))"
    unfolding k using assms(1) by (simp add: plain_names_def)
  have r: "\<And>e. e \<in> set (spec_export (files s)) \<Longrightarrow> fst e = importMapFile \<Longrightarrow>
              (case JSON_parse env (ex_code (snd e)) of
                 Inr (JObj m) \<Rightarrow> import_map_shape m | _ \<Rightarrow> False)"
    using assms(2) by (auto simp: import_map_readable_def spec_export_def list_all_iff)
  have i: "serialize_import_map env s (getFiles s) = Inr (spec_files env s)"
    unfolding g spec_files_def using d r by (rule serialize_import_map_spec)
  have "''_version'' \<notin> set (map fst (spec_export (files s)))"
    unfolding k using assms(1) by (auto simp: plain_names_def list_all_iff)
  then have "''_version'' \<notin> set (map fst (spec_files env s))"
    using spec_files_keys by blast
  then have "map_of (map (\<lambda>e. (fst e, json_of_exported (snd e))) (spec_files env s)) ''_version'' = None"
    by (simp add: map_of_eq_None_iff image_iff)
  then have "with_version (vueVersion s) (map (\<lambda>e. (fst e, json_of_exported (snd e))) (spec_files env s)) =
      map (\<lambda>e. (fst e, json_of_exported (snd e))) (spec_files env s) @ spec_version (vueVersion s)"
    by (rule with_version_spec)
  with i show ?thesis by (simp add: serialize_def spec_serialized_def)
qed


text \<open>
  The export also differs from the files of the store when two names are the same
  once stripped (the later file takes the entry of the earlier one, whose code is
  not exported), when a stripped name is an array index (it comes first), and when
  a file is named \<^verbatim>\<open>_version\<close> (the version takes its entry).
\<close>

lemma getFiles_same_stripped_name:
  "getFiles (sample_store\<lparr>files := files sample_store
                @ [(''App.tsx'', new_File ''App.tsx'' ''fresh'' False)]\<rparr>) =
     [(''index.html'', Exported ''<div id=app>'' (Some True)),
      (''App.tsx'', Exported ''fresh'' (Some False)),
      (''util.ts'', Exported ''u'' (Some False)),
      (''import-map.json'', Exported sample_import_map_text (Some False))]"
  by (simp add: getFiles_def getFiles_step_def sample_store_def stripSrcPrefix_def obj_set_def
      sample_names_plain new_File_def)

lemma getFiles_array_index_name:
  "map fst (getFiles (sample_store\<lparr>files := files sample_store
                @ [(''src/7'', new_File ''src/7'' [] False)]\<rparr>)) =
     [''7'', ''index.html'', ''App.tsx'', ''util.ts'', ''import-map.json'']"
  by (simp add: getFiles_def getFiles_step_def sample_store_def stripSrcPrefix_def obj_set_def
      sample_names_plain new_File_def array_index_def is_digit_def decimal_value_def)

lemma with_version_replaces_file:
  "with_version (Some ''3.5.0'')
     [(''_version'', json_of_exported (Exported ''hello'' (Some False)))] =
     [(''_version'', JStr ''3.5.0'')]"
  by (simp add: with_version_def obj_set_def)



section \<open>Deserializing what was serialized\<close>








lemma sample_restore:
  "restore (for_in sample_saved) sample_fresh =
     Inr (sample_fresh
       \<lparr>files := [(''src/index.html'', new_File ''src/index.html'' ''<div id=app>'' True),
              (''src/App.tsx'', new_File ''src/App.tsx'' ''hello'' False),
              (''src/util.ts'', new_File ''src/util.ts'' ''u'' False),
              (''import-map.json'', new_File ''import-map.json'' sample_pruned_text False)],
        vueVersion := Some ''3.5.0''\<rparr>)"
  by (simp add: sample_saved_def restore_entry_def setFile_def addSrcPrefix_def Let_def
      importMapFile_def tsconfigFile_def viteConfigFile_def tsMacroConfigFile_def
      obj_set_def sample_fresh_def fresh_store_def sample_names_plain)


text \<open>
  Two more things do not come back. A file whose name lacks the \<^verbatim>\<open>src/\<close> prefix, as
  \<^verbatim>\<open>addFile('App.tsx')\<close> leaves it, is exported under the same name as \<^verbatim>\<open>src/App.tsx\<close>
  and comes back with the prefix. The hidden flag of the import map file is not
  exported once \<^verbatim>\<open>serialize\<close> has replaced the file's entry.
\<close>

lemma sample_deserialize:
  "deserialize sample_env (''#'' @ sample_saved_text) sample_fresh =
     Inr (sample_fresh
       \<lparr>files := [(''src/index.html'', new_File ''src/index.html'' ''<div id=app>'' True),
              (''src/App.tsx'', new_File ''src/App.tsx'' ''hello'' False),
              (''src/util.ts'', new_File ''src/util.ts'' ''u'' False),
              (''import-map.json'', new_File ''import-map.json'' sample_pruned_text False)],
        vueVersion := Some ''3.5.0''\<rparr>)"
  using sample_restore by (simp add: deserialize_def sample_env_def sample_table)

lemma unprefixed_names_not_restored:
  "serialize sample_env
     (sample_store
        \<lparr>files := [(''index.html'', new_File ''index.html'' ''<div id=app>'' True),
                   (''App.tsx'', new_File ''App.tsx'' ''hello'' False),
                   (''util.ts'', new_File ''util.ts'' ''u'' False),
                   (''import-map.json'', new_File ''import-map.json'' sample_import_map_text False)]\<rparr>)
     = Inr (''#'' @ sample_saved_text)
   \<and> map_sum id (\<lambda>s'. map fst (files s'))
        (deserialize sample_env (''#'' @ sample_saved_text) sample_fresh) =
       Inr [''src/index.html'', ''src/App.tsx'', ''src/util.ts'', ''import-map.json'']"
proof -
  let ?s = "sample_store
        \<lparr>files := [(''index.html'', new_File ''index.html'' ''<div id=app>'' True),
                   (''App.tsx'', new_File ''App.tsx'' ''hello'' False),
                   (''util.ts'', new_File ''util.ts'' ''u'' False),
                   (''import-map.json'', new_File ''import-map.json'' sample_import_map_text False)]\<rparr>"
  have p: "plain_names ?s"
    by (simp add: plain_names_def stripSrcPrefix_def sample_names_plain)
  have r: "import_map_readable sample_env ?s"
    by (simp add: import_map_readable_def stripSrcPrefix_def importMapFile_def
        sample_env_def sample_table new_File_def import_map_shape_def)
  have "spec_export (files ?s) = spec_export (files sample_store)"
    by (simp add: spec_export_def sample_store_def stripSrcPrefix_def new_File_def)
  then have "spec_serialized sample_env ?s = spec_serialized sample_env sample_store"
    by (simp add: spec_serialized_def spec_files_def cong: if_cong)
  then have "serialize sample_env ?s = Inr (''#'' @ sample_saved_text)"
    using serialize_spec [OF p r] sample_spec_serialized sample_table
    by (simp add: sample_env_def)
  then show ?thesis using sample_deserialize by simp
qed

lemma import_map_hidden_not_restored:
  "serialize sample_env
     (sample_store
        \<lparr>files := [(''src/index.html'', new_File ''src/index.html'' ''<div id=app>'' True),
                   (''src/App.tsx'', new_File ''src/App.tsx'' ''hello'' False),
                   (''src/util.ts'', new_File ''src/util.ts'' ''u'' False),
                   (''import-map.json'', new_File ''import-map.json'' sample_import_map_text True)]\<rparr>)
     = Inr (''#'' @ sample_saved_text)
   \<and> map_sum id (\<lambda>s'. map_option hidden (map_of (files s') ''import-map.json''))
        (deserialize sample_env (''#'' @ sample_saved_text) sample_fresh) = Inr (Some False)"
proof -
  let ?s = "sample_store
        \<lparr>files := [(''src/index.html'', new_File ''src/index.html'' ''<div id=app>'' True),
                   (''src/App.tsx'', new_File ''src/App.tsx'' ''hello'' False),
                   (''src/util.ts'', new_File ''src/util.ts'' ''u'' False),
                   (''import-map.json'', new_File ''import-map.json'' sample_import_map_text True)]\<rparr>"
  have p: "plain_names ?s"
    by (simp add: plain_names_def stripSrcPrefix_def sample_names_plain)
  have r: "import_map_readable sample_env ?s"
    by (simp add: import_map_readable_def stripSrcPrefix_def importMapFile_def
        sample_env_def sample_table new_File_def import_map_shape_def)
  have "spec_files sample_env ?s = spec_files sample_env sample_store"
    unfolding sample_spec_files
    by (simp add: spec_files_def spec_export_def sample_store_def stripSrcPrefix_def importMapFile_def
      new_File_def spec_import_map_entry_def sample_env_def sample_table spec_import_map_def
      spec_drop_empty_def spec_drop_builtin_def same_as_builtin_def sample_pruned_def [symmetric])
  then have "spec_serialized sample_env ?s = spec_serialized sample_env sample_store"
    by (simp add: spec_serialized_def)
  then have "serialize sample_env ?s = Inr (''#'' @ sample_saved_text)"
    using serialize_spec [OF p r] sample_spec_serialized sample_table
    by (simp add: sample_env_def)
  then show ?thesis using sample_deserialize by (simp add: new_File_def)
qed



end
